theory Spec2Isabelle
  imports Main "HOL-Library.Multiset"
begin

section \<open>Values, columns, rows\<close>

text \<open>
  The values that travel between the request body, the dictionaries built by the handlers
  and the cells of the table: Python's \<open>None\<close> (SQL \<open>NULL\<close>), \<open>int\<close> and \<open>str\<close>.
  Integers are unbounded, as Python's are.
\<close>

datatype val = VNull | VInt int | VStr string

text \<open>
  The keys of the dictionaries handed to the store are the column identifiers of the
  \<open>books\<close> table. A \<open>sqlite3.Row\<close> is read by column name, so a row is a function from
  columns to values; a Python \<open>dict\<close> is kept as the list of its items, in insertion order.
\<close>

datatype column =
  C_id | C_title | C_author | C_publisher | C_price | C_publish_date | C_isbn | C_cover_url
  | C_created_at

type_synonym row = "column \<Rightarrow> val"

type_synonym dict = "(column \<times> val) list"

definition dict_get :: "dict \<Rightarrow> column \<Rightarrow> val" where
  \<comment> \<open>\<open>d.get(k)\<close>: \<open>None\<close> for a missing key, the stored value (possibly \<open>None\<close>) otherwise\<close>
  "dict_get d k = (case map_of d k of None \<Rightarrow> VNull | Some v \<Rightarrow> v)"

fun truthy :: "val \<Rightarrow> bool" where
  "truthy VNull = False"
| "truthy (VInt i) = (i \<noteq> 0)"
| "truthy (VStr s) = (s \<noteq> [])"

section \<open>The relational store\<close>

text \<open>
  Modelled from the spec: the \<open>books\<close> table and the engine that executes the statements of
  \<open>database.py\<close>. The table's declaration is not among the sources; the spec gives the
  columns \<open>id, title, author, publisher, price, publish_date, isbn, cover_url, created_at\<close>,
  \<open>id\<close> an auto-assigned integer primary key whose values strictly increase over the inserts,
  \<open>created_at\<close> assigned by the store at insert, every other column defaulting to \<open>NULL\<close>,
  and no further constraint enforced by the schema. The state of the store is the list of
  rows together with the largest \<open>id\<close> assigned so far; \<open>now\<close> is the reading of the
  store's clock at an insert.
\<close>

record db =
  books :: "row list"
  autoinc :: int

definition empty_db :: db where
  "empty_db = \<lparr>books = [], autoinc = 0\<rparr>"

datatype sqlite_error = OperationalError | IntegrityError

definition rowid :: "row \<Rightarrow> int" where
  "rowid r = (case r C_id of VInt i \<Rightarrow> i | _ \<Rightarrow> 0)"

definition set_columns :: "dict \<Rightarrow> row \<Rightarrow> row" where
  "set_columns d r = fold (\<lambda>(k, v) r'. r'(k := v)) d r"

definition default_row :: "string \<Rightarrow> row" where
  "default_row now = (\<lambda>c. VNull)(C_created_at := VStr now)"

definition pk_ok :: "row list \<Rightarrow> bool" where
  "pk_ok rs = (list_all (\<lambda>r. r C_id = VInt (rowid r)) rs \<and> distinct (map rowid rs))"

text \<open>Modelled from the spec: \<open>SELECT * FROM books ORDER BY id LIMIT ? OFFSET ?\<close>; a
  negative limit is no limit and a negative offset is no offset.\<close>

definition sql_select_page :: "int \<Rightarrow> int \<Rightarrow> db \<Rightarrow> row list" where
  "sql_select_page limit skip s =
     (let rest = drop (nat skip) (sort_key rowid (books s))
      in if limit < 0 then rest else take (nat limit) rest)"

text \<open>Modelled from the spec: \<open>SELECT * FROM books WHERE id = ?\<close>.\<close>

definition sql_select_by_id :: "int \<Rightarrow> db \<Rightarrow> row list" where
  "sql_select_by_id i s = filter (\<lambda>r. r C_id = VInt i) (books s)"

text \<open>Modelled from the spec: \<open>INSERT INTO books (columns) VALUES (values)\<close> followed by
  \<open>SELECT last_insert_rowid()\<close>. An empty column list is not a statement; a row without an
  \<open>id\<close> takes the next one, above every \<open>id\<close> assigned before.\<close>

definition sql_insert :: "string \<Rightarrow> dict \<Rightarrow> db \<Rightarrow> sqlite_error + (db \<times> int)" where
  "sql_insert now d s =
     (if d = [] then Inl OperationalError
      else let r = set_columns d (default_row now) in
        case r C_id of
          VNull \<Rightarrow>
            let i = fold max (map rowid (books s)) (autoinc s) + 1
            in Inr (s\<lparr>books := books s @ [r(C_id := VInt i)], autoinc := i\<rparr>, i)
        | VInt i \<Rightarrow>
            if i \<in> set (map rowid (books s)) then Inl IntegrityError
            else Inr (s\<lparr>books := books s @ [r], autoinc := max (autoinc s) i\<rparr>, i)
        | VStr _ \<Rightarrow> Inl IntegrityError)"

text \<open>Modelled from the spec: \<open>UPDATE books SET clauses WHERE id = ?\<close> with the cursor's
  \<open>rowcount\<close>, the number of rows the \<open>WHERE\<close> clause selected. An empty \<open>SET\<close> list is not
  a statement; the primary key is checked when the statement assigns \<open>id\<close>.\<close>

definition sql_update :: "dict \<Rightarrow> int \<Rightarrow> db \<Rightarrow> sqlite_error + (db \<times> nat)" where
  "sql_update sets i s =
     (if sets = [] then Inl OperationalError
      else let rs = map (\<lambda>r. if r C_id = VInt i then set_columns sets r else r) (books s)
        in if C_id \<in> set (map fst sets) \<and> \<not> pk_ok rs then Inl IntegrityError
           else Inr (s\<lparr>books := rs\<rparr>, length (filter (\<lambda>r. r C_id = VInt i) (books s))))"

text \<open>Modelled from the spec: \<open>DELETE FROM books WHERE id = ?\<close> with the cursor's
  \<open>rowcount\<close>.\<close>

definition sql_delete :: "int \<Rightarrow> db \<Rightarrow> db \<times> nat" where
  "sql_delete i s =
     (s\<lparr>books := filter (\<lambda>r. r C_id \<noteq> VInt i) (books s)\<rparr>,
      length (filter (\<lambda>r. r C_id = VInt i) (books s)))"

section \<open>database.py\<close>

definition get_all_books :: "int \<Rightarrow> int \<Rightarrow> db \<Rightarrow> row list" where
  "get_all_books skip limit s = sql_select_page limit skip s"

definition get_book_by_id :: "int \<Rightarrow> db \<Rightarrow> row option" where
  \<comment> \<open>\<open>fetchone()\<close>: the first selected row, \<open>None\<close> when there is none\<close>
  "get_book_by_id book_id s =
     (case sql_select_by_id book_id s of [] \<Rightarrow> None | book # _ \<Rightarrow> Some book)"

definition filtered_data :: "dict \<Rightarrow> dict" where
  \<comment> \<open>\<open>{k: v for k, v in book_data.items() if v is not None}\<close>\<close>
  "filtered_data book_data = filter (\<lambda>(k, v). v \<noteq> VNull) book_data"

definition database_create_book :: "string \<Rightarrow> dict \<Rightarrow> db \<Rightarrow> sqlite_error + (db \<times> int)" where
  "database_create_book now book_data s = sql_insert now (filtered_data book_data) s"

definition update_data_of :: "dict \<Rightarrow> dict" where
  \<comment> \<open>\<open>{k: v for k, v in book_data.items() if k not in ['id', 'created_at']}\<close>\<close>
  "update_data_of book_data = filter (\<lambda>(k, v). k \<notin> set [C_id, C_created_at]) book_data"

definition database_update_book :: "int \<Rightarrow> dict \<Rightarrow> db \<Rightarrow> sqlite_error + (db \<times> bool)" where
  "database_update_book book_id book_data s =
     (case sql_update (update_data_of book_data) book_id s of
        Inl e \<Rightarrow> Inl e
      | Inr (s', rowcount) \<Rightarrow> Inr (s', rowcount = 1))"

definition database_delete_book :: "int \<Rightarrow> db \<Rightarrow> db \<times> bool" where
  "database_delete_book book_id s =
     (case sql_delete book_id s of (s', rowcount) \<Rightarrow> (s', rowcount = 1))"

section \<open>models.py\<close>

text \<open>
  A field of a request body is absent, explicitly \<open>null\<close>, or given a value of the field's
  type. \<open>BookCreate\<close> is the body of \<open>POST\<close> and \<open>PUT\<close> as received; \<open>BookCreate_valid\<close> holds
  the constraints of the model's fields and its \<open>price\<close> validator.
\<close>

datatype 'a body_field = Unset | Null | Given 'a

record BookCreate =
  title :: "string body_field"
  author :: "string body_field"
  publisher :: "string body_field"
  price :: "int body_field"
  publish_date :: "string body_field"
  isbn :: "string body_field"
  cover_url :: "string body_field"

definition is_digit :: "char \<Rightarrow> bool" where
  "is_digit c = (c \<in> set ''0123456789'')"

definition date_pattern :: "string \<Rightarrow> bool" where
  \<comment> \<open>\<open>^\d{4}-\d{2}-\d{2}$\<close>, on strings of ASCII characters\<close>
  "date_pattern s =
     (length s = 10 \<and> list_all is_digit (take 4 s) \<and> s ! 4 = CHR ''-''
      \<and> list_all is_digit (take 2 (drop 5 s)) \<and> s ! 7 = CHR ''-''
      \<and> list_all is_digit (drop 8 s))"

definition min_length_1 :: "string body_field \<Rightarrow> bool" where
  "min_length_1 f = (case f of Given s \<Rightarrow> 1 \<le> length s | _ \<Rightarrow> True)"

definition gt_0 :: "int body_field \<Rightarrow> bool" where
  "gt_0 f = (case f of Given v \<Rightarrow> 0 < v | _ \<Rightarrow> True)"

definition validate_price_on_create :: "int body_field \<Rightarrow> bool" where
  \<comment> \<open>raises when \<open>v is not None and v <= 0\<close>\<close>
  "validate_price_on_create f = (case f of Given v \<Rightarrow> \<not> v \<le> 0 | _ \<Rightarrow> True)"

definition pattern_ok :: "string body_field \<Rightarrow> bool" where
  "pattern_ok f = (case f of Given s \<Rightarrow> date_pattern s | _ \<Rightarrow> True)"

definition BookCreate_valid :: "BookCreate \<Rightarrow> bool" where
  "BookCreate_valid b =
     (min_length_1 (title b) \<and> min_length_1 (author b) \<and> gt_0 (price b)
      \<and> validate_price_on_create (price b) \<and> pattern_ok (publish_date b))"

fun item :: "column \<Rightarrow> ('a \<Rightarrow> val) \<Rightarrow> 'a body_field \<Rightarrow> dict" where
  "item k conv Unset = []"
| "item k conv Null = [(k, VNull)]"
| "item k conv (Given x) = [(k, conv x)]"

definition dict_exclude_unset :: "BookCreate \<Rightarrow> dict" where
  \<comment> \<open>\<open>book.dict(exclude_unset=True)\<close>: the fields the body supplied, in declaration order\<close>
  "dict_exclude_unset b =
     item C_title VStr (title b) @ item C_author VStr (author b)
     @ item C_publisher VStr (publisher b) @ item C_price VInt (price b)
     @ item C_publish_date VStr (publish_date b) @ item C_isbn VStr (isbn b)
     @ item C_cover_url VStr (cover_url b)"

text \<open>
  \<open>BookResponse\<close> is the \<open>response_model\<close> of the routes that return books: the value a
  handler returns is validated against it before it is sent, each field read as an
  attribute of the value (\<open>from_attributes\<close>). The handlers return the \<open>sqlite3.Row\<close>
  objects of \<open>database.py\<close>; such a row is read by index or by column name and has no
  attribute named after a column, so every required field is found missing.
\<close>

definition getattr_row :: "row \<Rightarrow> column \<Rightarrow> val option" where
  "getattr_row r c = None"

definition required_int :: "val option \<Rightarrow> bool" where
  "required_int a = (case a of Some (VInt i) \<Rightarrow> True | _ \<Rightarrow> False)"

definition required_int_gt_0 :: "val option \<Rightarrow> bool" where
  "required_int_gt_0 a = (case a of Some (VInt i) \<Rightarrow> 0 < i | _ \<Rightarrow> False)"

definition required_str :: "val option \<Rightarrow> bool" where
  "required_str a = (case a of Some (VStr x) \<Rightarrow> True | _ \<Rightarrow> False)"

definition optional_str :: "val option \<Rightarrow> bool" where
  "optional_str a =
     (case a of None \<Rightarrow> True | Some VNull \<Rightarrow> True | Some (VStr x) \<Rightarrow> True | _ \<Rightarrow> False)"

definition BookResponse_valid :: "row \<Rightarrow> bool" where
  "BookResponse_valid r =
     (required_int (getattr_row r C_id) \<and> required_str (getattr_row r C_title)
      \<and> required_str (getattr_row r C_author) \<and> optional_str (getattr_row r C_publisher)
      \<and> required_int_gt_0 (getattr_row r C_price)
      \<and> optional_str (getattr_row r C_publish_date) \<and> optional_str (getattr_row r C_isbn)
      \<and> optional_str (getattr_row r C_cover_url)
      \<and> required_str (getattr_row r C_created_at))"

section \<open>main.py\<close>

text \<open>
  A handler returns its result or the error it raises, and the store it leaves behind. An
  error of the store that no handler catches reaches the client as status 500, a body that
  does not validate as status 422, a returned value that does not validate against the
  route's \<open>response_model\<close> as status 500.
\<close>

datatype error =
  RequestValidationError | HTTPException nat | Sqlite sqlite_error | ResponseValidationError

fun status_code :: "error \<Rightarrow> nat" where
  "status_code RequestValidationError = 422"
| "status_code (HTTPException n) = n"
| "status_code (Sqlite e) = 500"
| "status_code ResponseValidationError = 500"

definition response_model :: "row \<Rightarrow> error + row" where
  \<comment> \<open>\<open>response_model=BookResponse\<close>\<close>
  "response_model r = (if BookResponse_valid r then Inr r else Inl ResponseValidationError)"

definition response_model_list :: "row list \<Rightarrow> error + row list" where
  \<comment> \<open>\<open>response_model=List[BookResponse]\<close>\<close>
  "response_model_list rs =
     (if list_all BookResponse_valid rs then Inr rs else Inl ResponseValidationError)"

definition read_books :: "int \<Rightarrow> int \<Rightarrow> db \<Rightarrow> error + row list" where
  \<comment> \<open>\<open>skip: Query(0, ge=0)\<close>, \<open>limit: Query(10, gt=0, le=100)\<close>\<close>
  "read_books skip limit s =
     (if 0 \<le> skip \<and> 0 < limit \<and> limit \<le> 100
      then response_model_list (get_all_books skip limit s)
      else Inl RequestValidationError)"

definition read_book :: "int \<Rightarrow> db \<Rightarrow> error + row" where
  "read_book book_id s =
     (case get_book_by_id book_id s of
        None \<Rightarrow> Inl (HTTPException 404)
      | Some book \<Rightarrow> response_model book)"

definition create_book :: "string \<Rightarrow> BookCreate \<Rightarrow> db \<Rightarrow> (error + row) \<times> db" where
  "create_book now book s =
     (let book_data = dict_exclude_unset book in
      if \<not> truthy (dict_get book_data C_title) \<or> \<not> truthy (dict_get book_data C_author)
         \<or> dict_get book_data C_price = VNull
      then (Inl (HTTPException 422), s)
      else case database_create_book now book_data s of
          Inl e \<Rightarrow> (Inl (Sqlite e), s)
        | Inr (s', new_id) \<Rightarrow>
            (case get_book_by_id new_id s' of
               None \<Rightarrow> (Inl (HTTPException 500), s')
             | Some new_book \<Rightarrow> (Inr new_book, s')))"

definition update_book :: "int \<Rightarrow> BookCreate \<Rightarrow> db \<Rightarrow> (error + row) \<times> db" where
  "update_book book_id book s =
     (if get_book_by_id book_id s = None then (Inl (HTTPException 404), s)
      else let update_data = dict_exclude_unset book in
        if update_data = [] then (Inl (HTTPException 400), s)
        else case database_update_book book_id update_data s of
            Inl e \<Rightarrow> (Inl (Sqlite e), s)
          | Inr (s', success) \<Rightarrow>
              if \<not> success then (Inl (HTTPException 500), s')
              else (case get_book_by_id book_id s' of
                      None \<Rightarrow> (Inl (HTTPException 500), s')
                    | Some updated_book \<Rightarrow> (Inr updated_book, s')))"

definition delete_book :: "int \<Rightarrow> db \<Rightarrow> (error + unit) \<times> db" where
  "delete_book book_id s =
     (case database_delete_book book_id s of
        (s', deleted) \<Rightarrow> if \<not> deleted then (Inl (HTTPException 404), s') else (Inr (), s'))"

text \<open>
  The routes of \<open>POST /books\<close> and \<open>PUT /books/{book_id}\<close>: the body is validated against
  \<open>BookCreate\<close> before the handler is called, and a body that fails never reaches it; the
  book the handler returns is validated against \<open>BookResponse\<close> after the handler has
  changed the store.
\<close>

definition post_books :: "string \<Rightarrow> BookCreate \<Rightarrow> db \<Rightarrow> (error + row) \<times> db" where
  "post_books now body s =
     (if BookCreate_valid body
      then (case create_book now body s of
              (Inl e, s') \<Rightarrow> (Inl e, s')
            | (Inr new_book, s') \<Rightarrow> (response_model new_book, s'))
      else (Inl RequestValidationError, s))"

definition put_books :: "int \<Rightarrow> BookCreate \<Rightarrow> db \<Rightarrow> (error + row) \<times> db" where
  "put_books book_id body s =
     (if BookCreate_valid body
      then (case update_book book_id body s of
              (Inl e, s') \<Rightarrow> (Inl e, s')
            | (Inr updated_book, s') \<Rightarrow> (response_model updated_book, s'))
      else (Inl RequestValidationError, s))"

text \<open>
  A history of requests, the store it leaves and the ids its inserts were given: the id of
  the record that the handler of a create re-fetched after its insert.
\<close>

datatype request =
  GetBooks int int | GetBook int | PostBooks string BookCreate | PutBooks int BookCreate
  | DeleteBook int

fun serve :: "request \<Rightarrow> db \<Rightarrow> db" where
  "serve (GetBooks skip limit) s = s"
| "serve (GetBook book_id) s = s"
| "serve (PostBooks now body) s = snd (post_books now body s)"
| "serve (PutBooks book_id body) s = snd (put_books book_id body s)"
| "serve (DeleteBook book_id) s = snd (delete_book book_id s)"


fun run :: "request list \<Rightarrow> db \<Rightarrow> db" where
  "run [] s = s"
| "run (q # qs) s = run qs (serve q s)"


definition empty_body :: BookCreate where
  "empty_body =
     \<lparr>title = Unset, author = Unset, publisher = Unset, price = Unset, publish_date = Unset,
      isbn = Unset, cover_url = Unset\<rparr>"

text \<open>
  The field of a body behind a column, as a value of the store; \<open>id\<close> and \<open>created_at\<close>
  are not fields of \<open>BookCreate\<close>.
\<close>

fun field_of :: "BookCreate \<Rightarrow> column \<Rightarrow> val body_field" where
  "field_of b C_title = map_body_field VStr (title b)"
| "field_of b C_author = map_body_field VStr (author b)"
| "field_of b C_publisher = map_body_field VStr (publisher b)"
| "field_of b C_price = map_body_field VInt (price b)"
| "field_of b C_publish_date = map_body_field VStr (publish_date b)"
| "field_of b C_isbn = map_body_field VStr (isbn b)"
| "field_of b C_cover_url = map_body_field VStr (cover_url b)"
| "field_of b C_id = Unset"
| "field_of b C_created_at = Unset"

text \<open>
  A store holding one book, the one that \<open>POST /books {"title": "T", "author": "A",
  "price": 100}\<close> leaves in the empty store.
\<close>

definition book1 :: row where
  "book1 = (\<lambda>c. VNull)(C_created_at := VStr ''2025-01-01 00:00:00'', C_title := VStr ''T'',
      C_author := VStr ''A'', C_price := VInt 100, C_id := VInt 1)"

definition db1 :: db where
  "db1 = \<lparr>books = [book1], autoinc = 1\<rparr>"

text \<open>The store of two books that a second create, of a book by another author, leaves.\<close>

definition book2 :: row where
  "book2 = (\<lambda>c. VNull)(C_created_at := VStr ''2025-01-02 00:00:00'', C_title := VStr ''U'',
      C_author := VStr ''B'', C_price := VInt 200, C_id := VInt 2)"

definition db2 :: db where
  "db2 = \<lparr>books = [book1, book2], autoinc = 2\<rparr>"

definition body1 :: BookCreate where
  "body1 = empty_body\<lparr>title := Given ''T'', author := Given ''A'', price := Given 100\<rparr>"

section \<open>Reading the dictionary of a body\<close>

lemma map_of_item:
  "map_of (item k conv f) k' =
     (if k' = k then (case f of Unset \<Rightarrow> None | Null \<Rightarrow> Some VNull | Given x \<Rightarrow> Some (conv x))
      else None)"
  by (cases f) simp_all

lemma dict_get_title:
  "dict_get (dict_exclude_unset b) C_title = (case title b of Given t \<Rightarrow> VStr t | _ \<Rightarrow> VNull)"
  by (simp add: dict_get_def dict_exclude_unset_def map_of_item map_add_def
      split: body_field.splits)

lemma dict_get_author:
  "dict_get (dict_exclude_unset b) C_author = (case author b of Given t \<Rightarrow> VStr t | _ \<Rightarrow> VNull)"
  by (simp add: dict_get_def dict_exclude_unset_def map_of_item map_add_def
      split: body_field.splits)

lemma dict_get_price:
  "dict_get (dict_exclude_unset b) C_price = (case price b of Given p \<Rightarrow> VInt p | _ \<Rightarrow> VNull)"
  by (simp add: dict_get_def dict_exclude_unset_def map_of_item map_add_def
      split: body_field.splits)

section \<open>Creating a book: rejected bodies\<close>

text \<open>
  C4. A body of \<open>POST /books\<close> whose price is present and not greater than 0 is rejected
  with a validation error (status 422), and the store is left as it was: no row is
  inserted.
\<close>

theorem post_books_rejects_price:
  assumes "price body = Given p" and "p \<le> 0"
  shows "post_books now body s = (Inl RequestValidationError, s)
         \<and> status_code RequestValidationError = 422"
  using assms by (simp add: post_books_def BookCreate_valid_def gt_0_def)

theorem post_books_rejects_price_witness:
  "price (empty_body\<lparr>price := Given (-5)\<rparr>) = Given (-5) \<and> (-5::int) \<le> 0
   \<and> post_books ''2025-01-01 00:00:00'' (empty_body\<lparr>price := Given (-5)\<rparr>) empty_db
       = (Inl RequestValidationError, empty_db)"
  using post_books_rejects_price
    [of "empty_body\<lparr>price := Given (-5)\<rparr>" "-5" "''2025-01-01 00:00:00''" empty_db]
  by simp

text \<open>
  C6. A body of \<open>POST /books\<close> in which the title is missing, null or empty, or the author
  is missing, null or empty, or the price is missing, null or not greater than 0, fails
  with status 422; the store is left as it was and no record is returned.
\<close>

theorem post_books_requires:
  assumes "title body = Unset \<or> title body = Null \<or> title body = Given []
           \<or> author body = Unset \<or> author body = Null \<or> author body = Given []
           \<or> price body = Unset \<or> price body = Null \<or> (\<exists>p. price body = Given p \<and> p \<le> 0)"
  shows "\<exists>e. post_books now body s = (Inl e, s) \<and> status_code e = 422"
proof (cases "BookCreate_valid body")
  case False
  then show ?thesis by (simp add: post_books_def)
next
  case True
  with assms have "\<not> truthy (dict_get (dict_exclude_unset body) C_title)
      \<or> \<not> truthy (dict_get (dict_exclude_unset body) C_author)
      \<or> dict_get (dict_exclude_unset body) C_price = VNull"
    by (auto simp: dict_get_title dict_get_author dict_get_price BookCreate_valid_def gt_0_def)
  with True show ?thesis
    by (simp add: post_books_def create_book_def)
qed

theorem post_books_requires_witness:
  "author (empty_body\<lparr>title := Given ''T'', price := Given 100\<rparr>) = Unset
   \<and> (\<exists>e. post_books ''2025-01-01 00:00:00''
             (empty_body\<lparr>title := Given ''T'', price := Given 100\<rparr>) empty_db
           = (Inl e, empty_db) \<and> status_code e = 422)"
  using post_books_requires
    [of "empty_body\<lparr>title := Given ''T'', price := Given 100\<rparr>" "''2025-01-01 00:00:00''"
      empty_db]
  by (simp add: empty_body_def)

section \<open>Deleting a book\<close>

text \<open>
  C7. After \<open>DELETE /books/{id}\<close>, reading the same id on the store the delete leaves
  fails with status 404; a delete for an id that no record has fails with status 404 and
  leaves the store as it was; and the delete of the one record stored under an id succeeds
  and removes that record's row.
\<close>

theorem delete_book_then_read:
  "read_book book_id (snd (delete_book book_id s)) = Inl (HTTPException 404)
   \<and> (get_book_by_id book_id s = None
        \<longrightarrow> delete_book book_id s = (Inl (HTTPException 404), s))
   \<and> (sql_select_by_id book_id s = [r]
        \<longrightarrow> delete_book book_id s
              = (Inr (), s\<lparr>books := filter (\<lambda>x. x C_id \<noteq> VInt book_id) (books s)\<rparr>))"
proof (intro conjI)
  show "read_book book_id (snd (delete_book book_id s)) = Inl (HTTPException 404)"
    by (simp add: read_book_def delete_book_def database_delete_book_def sql_delete_def
        get_book_by_id_def sql_select_by_id_def)
next
  show "get_book_by_id book_id s = None
          \<longrightarrow> delete_book book_id s = (Inl (HTTPException 404), s)"
  proof
    assume "get_book_by_id book_id s = None"
    then have none: "filter (\<lambda>r. r C_id = VInt book_id) (books s) = []"
      by (simp add: get_book_by_id_def sql_select_by_id_def split: list.splits)
    then have "filter (\<lambda>r. r C_id \<noteq> VInt book_id) (books s) = books s"
      by (simp add: filter_empty_conv)
    with none show "delete_book book_id s = (Inl (HTTPException 404), s)"
      by (simp add: delete_book_def database_delete_book_def sql_delete_def)
  qed
next
  show "sql_select_by_id book_id s = [r]
        \<longrightarrow> delete_book book_id s
              = (Inr (), s\<lparr>books := filter (\<lambda>x. x C_id \<noteq> VInt book_id) (books s)\<rparr>)"
    by (simp add: delete_book_def database_delete_book_def sql_delete_def sql_select_by_id_def)
qed

text \<open>
  On the store of two books the delete of book 1 succeeds; afterwards book 1, stored
  before, reads as not found and book 2 is still stored. The delete of the absent id 999
  fails and changes nothing.
\<close>

theorem delete_book_then_read_witness:
  "sql_select_by_id 1 db2 = [book1] \<and> get_book_by_id 1 db2 = Some book1
   \<and> delete_book 1 db2 = (Inr (), \<lparr>books = [book2], autoinc = 2\<rparr>)
   \<and> read_book 1 (snd (delete_book 1 db2)) = Inl (HTTPException 404)
   \<and> get_book_by_id 2 (snd (delete_book 1 db2)) = Some book2
   \<and> get_book_by_id 999 db2 = None
   \<and> delete_book 999 db2 = (Inl (HTTPException 404), db2)"
proof -
  have one: "sql_select_by_id 1 db2 = [book1]"
    by (simp add: sql_select_by_id_def db2_def book1_def book2_def)
  have g: "get_book_by_id 1 db2 = Some book1"
    by (simp add: get_book_by_id_def one)
  have none: "get_book_by_id 999 db2 = None"
    by (simp add: get_book_by_id_def sql_select_by_id_def db2_def book1_def book2_def)
  have rest: "db2\<lparr>books := filter (\<lambda>x. x C_id \<noteq> VInt 1) (books db2)\<rparr>
      = \<lparr>books = [book2], autoinc = 2\<rparr>"
    by (simp add: db2_def book1_def book2_def)
  note t = delete_book_then_read [of 1 db2 book1]
  from t one rest have d: "delete_book 1 db2 = (Inr (), \<lparr>books = [book2], autoinc = 2\<rparr>)"
    by simp
  from t have r: "read_book 1 (snd (delete_book 1 db2)) = Inl (HTTPException 404)" by blast
  have k: "get_book_by_id 2 (snd (delete_book 1 db2)) = Some book2"
    by (simp add: d get_book_by_id_def sql_select_by_id_def book2_def)
  from delete_book_then_read [of 999 db2 book1] none
  have a: "delete_book 999 db2 = (Inl (HTTPException 404), db2)" by blast
  from one g d r k none a show ?thesis by blast
qed

section \<open>The example store\<close>

lemma get1: "get_book_by_id 1 db1 = Some book1"
  by (simp add: get_book_by_id_def sql_select_by_id_def db1_def book1_def)

lemma get_missing: "get_book_by_id 999 db1 = None"
  by (simp add: get_book_by_id_def sql_select_by_id_def db1_def book1_def)

lemma post1: "create_book ''2025-01-01 00:00:00'' body1 empty_db = (Inr book1, db1)"
  by (simp add: create_book_def body1_def empty_body_def
      dict_exclude_unset_def dict_get_def database_create_book_def filtered_data_def
      sql_insert_def set_columns_def default_row_def empty_db_def get_book_by_id_def
      sql_select_by_id_def db1_def book1_def rowid_def Let_def fun_upd_twist)

lemma valid_body1: "BookCreate_valid body1"
  by (simp add: BookCreate_valid_def body1_def empty_body_def min_length_1_def gt_0_def
      validate_price_on_create_def pattern_ok_def)

lemma BookResponse_valid_row: "\<not> BookResponse_valid r"
  by (simp add: BookResponse_valid_def getattr_row_def required_int_def)

lemma response_model_row: "response_model r = Inl ResponseValidationError"
  by (simp add: response_model_def BookResponse_valid_row)

lemma post_books_snd:
  "snd (post_books now body s) = (if BookCreate_valid body then snd (create_book now body s) else s)"
  by (simp add: post_books_def split: prod.splits sum.splits)

lemma put_books_snd:
  "snd (put_books book_id body s)
     = (if BookCreate_valid body then snd (update_book book_id body s) else s)"
  by (simp add: put_books_def split: prod.splits sum.splits)

lemma put_books_invalid:
  "\<not> BookCreate_valid body \<Longrightarrow> put_books book_id body s = (Inl RequestValidationError, s)"
  by (simp add: put_books_def)

lemma invalid_empty_title: "\<not> BookCreate_valid (empty_body\<lparr>title := Given []\<rparr>)"
  by (simp add: BookCreate_valid_def min_length_1_def empty_body_def)

lemma get2: "get_book_by_id 1 db2 = Some book1 \<and> get_book_by_id 2 db2 = Some book2"
  by (simp add: get_book_by_id_def sql_select_by_id_def db2_def book1_def book2_def)

lemma post2:
  "create_book ''2025-01-02 00:00:00''
     (empty_body\<lparr>title := Given ''U'', author := Given ''B'', price := Given 200\<rparr>) db1
   = (Inr book2, db2)"
  by (simp add: create_book_def empty_body_def
      dict_exclude_unset_def dict_get_def database_create_book_def filtered_data_def
      sql_insert_def set_columns_def default_row_def get_book_by_id_def
      sql_select_by_id_def db1_def db2_def book1_def book2_def rowid_def Let_def fun_upd_twist)

lemma db2_reached:
  "run [PostBooks ''2025-01-01 00:00:00'' body1,
        PostBooks ''2025-01-02 00:00:00''
          (empty_body\<lparr>title := Given ''U'', author := Given ''B'', price := Given 200\<rparr>)]
     empty_db = db2"
proof -
  have v: "BookCreate_valid
      (empty_body\<lparr>title := Given ''U'', author := Given ''B'', price := Given 200\<rparr>)"
    by (simp add: BookCreate_valid_def empty_body_def min_length_1_def gt_0_def
        validate_price_on_create_def pattern_ok_def)
  show ?thesis by (simp add: post_books_snd valid_body1 post1 v post2)
qed

lemma valid_price_only: "0 < p \<Longrightarrow> BookCreate_valid (empty_body\<lparr>price := Given p\<rparr>)"
  by (simp add: BookCreate_valid_def empty_body_def min_length_1_def gt_0_def
      validate_price_on_create_def pattern_ok_def)

section \<open>Dictionaries and rows\<close>

lemma map_of_dict_exclude_unset:
  "map_of (dict_exclude_unset b) c =
     (case field_of b c of Unset \<Rightarrow> None | Null \<Rightarrow> Some VNull | Given v \<Rightarrow> Some v)"
  by (cases c)
     (simp_all add: dict_exclude_unset_def map_of_item map_add_def split: body_field.splits)

lemma map_fst_item: "map fst (item k conv f) = (if f = Unset then [] else [k])"
  by (cases f) simp_all

lemma distinct_app1: "distinct (map fst ys) \<Longrightarrow> k \<notin> fst ` set ys \<Longrightarrow>
   distinct (map fst (item k conv f @ ys))"
  by (cases f) simp_all

lemma keys_app1: "fst ` set (item k conv f @ ys) \<subseteq> insert k (fst ` set ys)"
  by (cases f) auto

lemma distinct_dict_exclude_unset: "distinct (map fst (dict_exclude_unset b))"
proof -
  let ?d7 = "item C_cover_url VStr (cover_url b)"
  let ?d6 = "item C_isbn VStr (isbn b) @ ?d7"
  let ?d5 = "item C_publish_date VStr (publish_date b) @ ?d6"
  let ?d4 = "item C_price VInt (price b) @ ?d5"
  let ?d3 = "item C_publisher VStr (publisher b) @ ?d4"
  let ?d2 = "item C_author VStr (author b) @ ?d3"
  have k7: "fst ` set ?d7 \<subseteq> {C_cover_url}"
    using keys_app1 [of C_cover_url VStr "cover_url b" "[]"] by simp
  have k6: "fst ` set ?d6 \<subseteq> {C_isbn, C_cover_url}"
    using keys_app1 [of C_isbn VStr "isbn b" ?d7] k7 by blast
  have k5: "fst ` set ?d5 \<subseteq> {C_publish_date, C_isbn, C_cover_url}"
    using keys_app1 [of C_publish_date VStr "publish_date b" ?d6] k6 by blast
  have k4: "fst ` set ?d4 \<subseteq> {C_price, C_publish_date, C_isbn, C_cover_url}"
    using keys_app1 [of C_price VInt "price b" ?d5] k5 by blast
  have k3: "fst ` set ?d3 \<subseteq> {C_publisher, C_price, C_publish_date, C_isbn, C_cover_url}"
    using keys_app1 [of C_publisher VStr "publisher b" ?d4] k4 by blast
  have k2: "fst ` set ?d2
      \<subseteq> {C_author, C_publisher, C_price, C_publish_date, C_isbn, C_cover_url}"
    using keys_app1 [of C_author VStr "author b" ?d3] k3 by blast
  have n7: "C_isbn \<notin> fst ` set ?d7" using k7 by auto
  have n6: "C_publish_date \<notin> fst ` set ?d6" using k6 by auto
  have n5: "C_price \<notin> fst ` set ?d5" using k5 by auto
  have n4: "C_publisher \<notin> fst ` set ?d4" using k4 by auto
  have n3: "C_author \<notin> fst ` set ?d3" using k3 by auto
  have n2: "C_title \<notin> fst ` set ?d2" using k2 by auto
  have d7: "distinct (map fst ?d7)" by (simp add: map_fst_item)
  have d6: "distinct (map fst ?d6)" by (rule distinct_app1 [OF d7 n7])
  have d5: "distinct (map fst ?d5)" by (rule distinct_app1 [OF d6 n6])
  have d4: "distinct (map fst ?d4)" by (rule distinct_app1 [OF d5 n5])
  have d3: "distinct (map fst ?d3)" by (rule distinct_app1 [OF d4 n4])
  have d2: "distinct (map fst ?d2)" by (rule distinct_app1 [OF d3 n3])
  have "distinct (map fst (item C_title VStr (title b) @ ?d2))"
    by (rule distinct_app1 [OF d2 n2])
  then show ?thesis by (simp add: dict_exclude_unset_def)
qed

lemma keys_dict_exclude_unset:
  "C_id \<notin> fst ` set (dict_exclude_unset b) \<and> C_created_at \<notin> fst ` set (dict_exclude_unset b)"
proof -
  have "map_of (dict_exclude_unset b) C_id = None" "map_of (dict_exclude_unset b) C_created_at = None"
    by (simp_all add: map_of_dict_exclude_unset)
  then show ?thesis by (simp add: map_of_eq_None_iff)
qed

lemma update_data_of_keys:
  "C_id \<notin> fst ` set (update_data_of d) \<and> C_created_at \<notin> fst ` set (update_data_of d)"
  by (auto simp: update_data_of_def)

lemma update_data_of_id:
  "C_id \<notin> fst ` set d \<Longrightarrow> C_created_at \<notin> fst ` set d \<Longrightarrow> update_data_of d = d"
  by (induction d) (auto simp: update_data_of_def)

lemma update_data_of_dict_exclude_unset:
  "update_data_of (dict_exclude_unset b) = dict_exclude_unset b"
  using keys_dict_exclude_unset [of b] by (simp add: update_data_of_id)

lemma set_columns_other: "c \<notin> fst ` set d \<Longrightarrow> set_columns d r c = r c"
  unfolding set_columns_def by (induction d arbitrary: r) auto

lemma set_columns_distinct:
  "distinct (map fst d) \<Longrightarrow>
   set_columns d r c = (case map_of d c of None \<Rightarrow> r c | Some v \<Rightarrow> v)"
  unfolding set_columns_def
proof (induction d arbitrary: r)
  case Nil
  then show ?case by simp
next
  case (Cons kv d)
  obtain k v where kv: "kv = (k, v)" by (cases kv)
  from Cons.prems kv have k: "k \<notin> fst ` set d" and d: "distinct (map fst d)" by auto
  from k have none: "map_of d k = None" by (simp add: map_of_eq_None_iff)
  show ?case
    using Cons.IH [OF d, of "r(k := v)"] none kv
    by (auto split: option.splits)
qed

lemma set_columns_dict_exclude_unset:
  "set_columns (dict_exclude_unset b) r c =
     (case field_of b c of Unset \<Rightarrow> r c | Null \<Rightarrow> VNull | Given v \<Rightarrow> v)"
  by (simp add: set_columns_distinct [OF distinct_dict_exclude_unset] map_of_dict_exclude_unset
      split: body_field.splits)

lemma dict_exclude_unset_Nil_valid: "dict_exclude_unset b = [] \<Longrightarrow> BookCreate_valid b"
  by (cases "title b"; cases "author b"; cases "price b"; cases "publish_date b")
     (simp_all add: dict_exclude_unset_def BookCreate_valid_def min_length_1_def gt_0_def
        validate_price_on_create_def pattern_ok_def)

section \<open>Reading after an update\<close>

lemma database_update_book_body:
  assumes "dict_exclude_unset b \<noteq> []"
  shows "database_update_book book_id (dict_exclude_unset b) s =
     Inr (s\<lparr>books := map (\<lambda>r. if r C_id = VInt book_id
                                then set_columns (dict_exclude_unset b) r else r) (books s)\<rparr>,
          length (sql_select_by_id book_id s) = 1)"
  using assms keys_dict_exclude_unset [of b]
  by (simp add: database_update_book_def sql_update_def update_data_of_dict_exclude_unset
      sql_select_by_id_def Let_def)

lemma select_by_id_map:
  assumes "\<And>r. g r C_id = r C_id"
  shows "sql_select_by_id i (s\<lparr>books := map g (books s)\<rparr>) = map g (sql_select_by_id i s)"
  using assms by (simp add: sql_select_by_id_def filter_map comp_def)

lemma get_book_by_id_map:
  assumes "\<And>r. g r C_id = r C_id"
  shows "get_book_by_id i (s\<lparr>books := map g (books s)\<rparr>) = map_option g (get_book_by_id i s)"
  by (simp add: get_book_by_id_def select_by_id_map [of g, OF assms] split: list.splits)

lemma get_book_by_id_has_id: "get_book_by_id i s = Some r \<Longrightarrow> r C_id = VInt i"
proof -
  assume "get_book_by_id i s = Some r"
  then have "r \<in> set (sql_select_by_id i s)"
    by (auto simp: get_book_by_id_def split: list.splits)
  then show ?thesis by (simp add: sql_select_by_id_def)
qed

lemma update_step_keeps_id:
  "(if r C_id = VInt book_id then set_columns (dict_exclude_unset b) r else r) C_id = r C_id"
  by (simp add: set_columns_dict_exclude_unset)

lemma update_book_state:
  assumes "get_book_by_id book_id s = Some r"
  shows "snd (update_book book_id b s) =
     s\<lparr>books := map (\<lambda>r. if r C_id = VInt book_id
                           then set_columns (dict_exclude_unset b) r else r) (books s)\<rparr>"
proof (cases "dict_exclude_unset b = []")
  case True
  then have "map (\<lambda>r. if r C_id = VInt book_id
                           then set_columns (dict_exclude_unset b) r else r) (books s) = books s"
    by (simp add: set_columns_def map_idI)
  with True assms show ?thesis by (simp add: update_book_def)
next
  case False
  with assms show ?thesis
    by (simp add: update_book_def database_update_book_body Let_def split: option.splits)
qed

section \<open>Replacing a book\<close>

text \<open>
  C1 (amended). For a stored record and a \<open>PUT /books/{id}\<close> request for it whose body
  passes validation, the record stored under the id afterwards has, in every column the
  body supplies, the supplied value (\<open>NULL\<close> for an explicit null), and in every other
  column, \<open>id\<close> and \<open>created_at\<close> among them, the value it had; the records under other
  ids read as before. A body that fails validation is rejected with status 422 and the
  store is left as it was.
\<close>

theorem put_books_updates_supplied:
  "(BookCreate_valid body \<and> get_book_by_id book_id s = Some r \<longrightarrow>
      (\<exists>r'. get_book_by_id book_id (snd (put_books book_id body s)) = Some r'
           \<and> (\<forall>c. r' c = (case field_of body c of
                              Unset \<Rightarrow> r c | Null \<Rightarrow> VNull | Given v \<Rightarrow> v))
           \<and> (\<forall>i. i \<noteq> book_id
                 \<longrightarrow> get_book_by_id i (snd (put_books book_id body s)) = get_book_by_id i s)))
   \<and> (\<not> BookCreate_valid body \<longrightarrow>
         put_books book_id body s = (Inl RequestValidationError, s)
         \<and> status_code RequestValidationError = 422)"
proof (intro conjI impI)
  assume "\<not> BookCreate_valid body"
  then show "put_books book_id body s = (Inl RequestValidationError, s)"
    by (rule put_books_invalid)
next
  show "status_code RequestValidationError = 422" by simp
next
  assume a: "BookCreate_valid body \<and> get_book_by_id book_id s = Some r"
  let ?g = "\<lambda>r. if r C_id = VInt book_id then set_columns (dict_exclude_unset body) r else r"
  let ?s' = "s\<lparr>books := map ?g (books s)\<rparr>"
  have keep: "\<And>x. ?g x C_id = x C_id" by (rule update_step_keeps_id)
  have s': "snd (put_books book_id body s) = ?s'"
    using a by (simp add: put_books_snd update_book_state)
  have get: "\<And>i. get_book_by_id i ?s' = map_option ?g (get_book_by_id i s)"
    by (rule get_book_by_id_map [of ?g, OF keep])
  have rid: "r C_id = VInt book_id" using a get_book_by_id_has_id by blast
  have g1: "get_book_by_id book_id ?s' = Some (set_columns (dict_exclude_unset body) r)"
    using get [of book_id] a rid by simp
  have g2: "\<forall>i. i \<noteq> book_id \<longrightarrow> get_book_by_id i ?s' = get_book_by_id i s"
  proof (intro allI impI)
    fix i assume ne: "i \<noteq> book_id"
    show "get_book_by_id i ?s' = get_book_by_id i s"
    proof (cases "get_book_by_id i s")
      case None
      then show ?thesis using get [of i] by simp
    next
      case (Some x)
      then have "x C_id = VInt i" by (rule get_book_by_id_has_id)
      with ne Some show ?thesis using get [of i] by simp
    qed
  qed
  show "\<exists>r'. get_book_by_id book_id (snd (put_books book_id body s)) = Some r'
           \<and> (\<forall>c. r' c = (case field_of body c of
                              Unset \<Rightarrow> r c | Null \<Rightarrow> VNull | Given v \<Rightarrow> v))
           \<and> (\<forall>i. i \<noteq> book_id
                 \<longrightarrow> get_book_by_id i (snd (put_books book_id body s)) = get_book_by_id i s)"
    unfolding s'
    using g1 g2 by (simp add: set_columns_dict_exclude_unset)
qed

text \<open>
  The body \<open>{"price": 500}\<close> on the example store: the price, 100 before, becomes 500 and
  the other columns keep their values; the body \<open>{"title": ""}\<close> is rejected and changes
  nothing.
\<close>

theorem put_books_updates_supplied_witness:
  "BookCreate_valid (empty_body\<lparr>price := Given 500\<rparr>) \<and> get_book_by_id 1 db1 = Some book1
   \<and> book1 C_price = VInt 100
   \<and> (\<exists>r'. get_book_by_id 1 (snd (put_books 1 (empty_body\<lparr>price := Given 500\<rparr>) db1)) = Some r'
         \<and> r' C_price = VInt 500 \<and> r' C_title = VStr ''T'' \<and> r' C_author = VStr ''A''
         \<and> r' C_id = VInt 1 \<and> r' C_created_at = VStr ''2025-01-01 00:00:00'')
   \<and> get_book_by_id 999 (snd (put_books 1 (empty_body\<lparr>price := Given 500\<rparr>) db1)) = None
   \<and> \<not> BookCreate_valid (empty_body\<lparr>title := Given []\<rparr>)
   \<and> put_books 1 (empty_body\<lparr>title := Given []\<rparr>) db1 = (Inl RequestValidationError, db1)"
proof -
  let ?b = "empty_body\<lparr>price := Given 500\<rparr>"
  let ?bad = "empty_body\<lparr>title := Given []\<rparr>"
  have v: "BookCreate_valid ?b" by (simp add: valid_price_only)
  have p: "book1 C_price = VInt 100" by (simp add: book1_def)
  from put_books_updates_supplied [of ?b 1 db1 book1] v get1 obtain r' where
    g: "get_book_by_id 1 (snd (put_books 1 ?b db1)) = Some r'"
    and c: "\<forall>c. r' c = (case field_of ?b c of Unset \<Rightarrow> book1 c | Null \<Rightarrow> VNull | Given v \<Rightarrow> v)"
    and o: "\<forall>i. i \<noteq> 1 \<longrightarrow> get_book_by_id i (snd (put_books 1 ?b db1)) = get_book_by_id i db1"
    by blast
  from c have "r' C_price = VInt 500" "r' C_title = VStr ''T'' " "r' C_author = VStr ''A''"
    "r' C_id = VInt 1" "r' C_created_at = VStr ''2025-01-01 00:00:00''"
    by (simp_all add: empty_body_def book1_def)
  moreover from o have "get_book_by_id 999 (snd (put_books 1 ?b db1)) = None"
    by (simp add: get_missing)
  moreover from put_books_updates_supplied [of ?bad 1 db1 book1] invalid_empty_title
  have "put_books 1 ?bad db1 = (Inl RequestValidationError, db1)" by blast
  ultimately show ?thesis using v get1 p g invalid_empty_title by blast
qed

text \<open>
  C1 as stated, for every body: the body \<open>{"price": -5}\<close> supplies the price of a stored
  record and is rejected by the validation of \<open>BookCreate\<close>; the stored price stays 100.
\<close>

theorem put_books_invalid_body_counterexample:
  "get_book_by_id 1 db1 = Some book1 \<and> book1 C_price = VInt 100
   \<and> field_of (empty_body\<lparr>price := Given (-5)\<rparr>) C_price = Given (VInt (-5))
   \<and> put_books 1 (empty_body\<lparr>price := Given (-5)\<rparr>) db1 = (Inl RequestValidationError, db1)"
  by (simp add: get1 put_books_def BookCreate_valid_def gt_0_def empty_body_def book1_def)

text \<open>
  C5 (amended). For a \<open>PUT /books/{id}\<close> request whose body passes validation, an id
  that no record has fails with status 404; for an id that a record has, a body that
  supplies no field fails with status 400. A body that fails validation is answered with
  status 422, whether or not a record has the id. In all three cases the store is left as
  it was.
\<close>

theorem put_books_errors:
  "(BookCreate_valid body \<and> get_book_by_id book_id s = None
      \<longrightarrow> put_books book_id body s = (Inl (HTTPException 404), s))
   \<and> (get_book_by_id book_id s \<noteq> None \<and> dict_exclude_unset body = []
      \<longrightarrow> put_books book_id body s = (Inl (HTTPException 400), s))
   \<and> (\<not> BookCreate_valid body
      \<longrightarrow> put_books book_id body s = (Inl RequestValidationError, s)
          \<and> status_code RequestValidationError = 422)"
  by (auto simp: put_books_def update_book_def dict_exclude_unset_Nil_valid)

theorem put_books_errors_witness:
  "BookCreate_valid (empty_body\<lparr>price := Given 150\<rparr>) \<and> get_book_by_id 999 db1 = None
   \<and> put_books 999 (empty_body\<lparr>price := Given 150\<rparr>) db1 = (Inl (HTTPException 404), db1)
   \<and> get_book_by_id 1 db1 \<noteq> None \<and> dict_exclude_unset empty_body = []
   \<and> put_books 1 empty_body db1 = (Inl (HTTPException 400), db1)
   \<and> \<not> BookCreate_valid (empty_body\<lparr>title := Given []\<rparr>)
   \<and> put_books 1 (empty_body\<lparr>title := Given []\<rparr>) db1 = (Inl RequestValidationError, db1)
   \<and> put_books 999 (empty_body\<lparr>title := Given []\<rparr>) db1 = (Inl RequestValidationError, db1)"
proof -
  let ?bad = "empty_body\<lparr>title := Given []\<rparr>"
  have v: "BookCreate_valid (empty_body\<lparr>price := Given 150\<rparr>)" by (simp add: valid_price_only)
  have g: "get_book_by_id 1 db1 \<noteq> None" by (simp add: get1)
  have e: "dict_exclude_unset empty_body = []"
    by (simp add: dict_exclude_unset_def empty_body_def)
  from put_books_errors [of "empty_body\<lparr>price := Given 150\<rparr>" 999 db1] v get_missing
  have "put_books 999 (empty_body\<lparr>price := Given 150\<rparr>) db1 = (Inl (HTTPException 404), db1)"
    by blast
  moreover from put_books_errors [of empty_body 1 db1] g e
  have "put_books 1 empty_body db1 = (Inl (HTTPException 400), db1)" by blast
  moreover from put_books_errors [of ?bad 1 db1] invalid_empty_title
  have "put_books 1 ?bad db1 = (Inl RequestValidationError, db1)" by blast
  moreover from put_books_errors [of ?bad 999 db1] invalid_empty_title
  have "put_books 999 ?bad db1 = (Inl RequestValidationError, db1)" by blast
  ultimately show ?thesis using v get_missing g e invalid_empty_title by blast
qed

text \<open>
  C5 as stated, for every request: with no record under id 999, the body \<open>{"price": 0}\<close>
  fails validation first, and the answer is the validation error, not status 404.
\<close>

theorem put_books_missing_id_counterexample:
  "get_book_by_id 999 db1 = None
   \<and> put_books 999 (empty_body\<lparr>price := Given 0\<rparr>) db1 = (Inl RequestValidationError, db1)
   \<and> put_books 999 (empty_body\<lparr>price := Given 0\<rparr>) db1 \<noteq> (Inl (HTTPException 404), db1)"
  by (simp add: get_missing put_books_def BookCreate_valid_def gt_0_def empty_body_def)

section \<open>The update of the store\<close>

text \<open>
  C8. For a non-empty field mapping without the keys \<open>id\<close> and \<open>created_at\<close>, the
  store's update executes, rewrites the rows the id selects, and returns true exactly when
  the statement affected one row; with no record under the id it returns false and the
  store is as it was.
\<close>

theorem database_update_book_rowcount:
  assumes "book_data \<noteq> []" and "C_id \<notin> fst ` set book_data"
    and "C_created_at \<notin> fst ` set book_data"
  shows "database_update_book book_id book_data s
           = Inr (s\<lparr>books := map (\<lambda>r. if r C_id = VInt book_id
                                        then set_columns book_data r else r) (books s)\<rparr>,
                  length (sql_select_by_id book_id s) = 1)
         \<and> (get_book_by_id book_id s = None
              \<longrightarrow> database_update_book book_id book_data s = Inr (s, False))"
proof -
  from assms have u: "update_data_of book_data = book_data" by (simp add: update_data_of_id)
  from assms u have first: "database_update_book book_id book_data s
           = Inr (s\<lparr>books := map (\<lambda>r. if r C_id = VInt book_id
                                        then set_columns book_data r else r) (books s)\<rparr>,
                  length (sql_select_by_id book_id s) = 1)"
    by (simp add: database_update_book_def sql_update_def sql_select_by_id_def Let_def)
  have "get_book_by_id book_id s = None
           \<longrightarrow> database_update_book book_id book_data s = Inr (s, False)"
  proof
    assume "get_book_by_id book_id s = None"
    then have none: "filter (\<lambda>r. r C_id = VInt book_id) (books s) = []"
      by (simp add: get_book_by_id_def sql_select_by_id_def split: list.splits)
    then have "map (\<lambda>r. if r C_id = VInt book_id then set_columns book_data r else r) (books s)
               = books s"
      by (simp add: filter_empty_conv map_idI)
    with none first show "database_update_book book_id book_data s = Inr (s, False)"
      by (simp add: sql_select_by_id_def)
  qed
  with first show ?thesis by blast
qed

theorem database_update_book_rowcount_witness:
  "[(C_price, VInt 500)] \<noteq> [] \<and> C_id \<notin> fst ` set [(C_price, VInt 500)]
   \<and> C_created_at \<notin> fst ` set [(C_price, VInt 500)]
   \<and> get_book_by_id 999 db1 = None
   \<and> database_update_book 999 [(C_price, VInt 500)] db1 = Inr (db1, False)
   \<and> length (sql_select_by_id 1 db1) = 1
   \<and> snd (projr (database_update_book 1 [(C_price, VInt 500)] db1))"
proof -
  have h: "[(C_price, VInt 500)] \<noteq> []" "C_id \<notin> fst ` set [(C_price, VInt 500)]"
    "C_created_at \<notin> fst ` set [(C_price, VInt 500)]"
    by simp_all
  have one: "length (sql_select_by_id 1 db1) = 1"
    by (simp add: sql_select_by_id_def db1_def book1_def)
  from database_update_book_rowcount [OF h, of 999 db1] get_missing
  have a: "database_update_book 999 [(C_price, VInt 500)] db1 = Inr (db1, False)" by blast
  from database_update_book_rowcount [OF h, of 1 db1] one
  have b: "snd (projr (database_update_book 1 [(C_price, VInt 500)] db1))" by simp
  from h get_missing a one b show ?thesis by blast
qed

text \<open>
  C9. For every field mapping, the keys \<open>id\<close> and \<open>created_at\<close> are removed before the
  statement is built. When nothing is left the statement fails and the store is not
  changed; otherwise the update executes and the \<open>id\<close> and \<open>created_at\<close> columns of every
  record are as they were.
\<close>

theorem database_update_book_keeps_keys:
  "C_id \<notin> fst ` set (update_data_of book_data)
   \<and> C_created_at \<notin> fst ` set (update_data_of book_data)
   \<and> (update_data_of book_data = []
        \<longrightarrow> database_update_book book_id book_data s = Inl OperationalError)
   \<and> (update_data_of book_data \<noteq> []
        \<longrightarrow> (\<exists>s' ok. database_update_book book_id book_data s = Inr (s', ok)
              \<and> map (\<lambda>r. (r C_id, r C_created_at)) (books s')
                  = map (\<lambda>r. (r C_id, r C_created_at)) (books s)))"
proof -
  have keys: "C_id \<notin> fst ` set (update_data_of book_data)"
    "C_created_at \<notin> fst ` set (update_data_of book_data)"
    using update_data_of_keys [of book_data] by simp_all
  have same: "map (\<lambda>r. (r C_id, r C_created_at))
        (map (\<lambda>r. if r C_id = VInt book_id then set_columns (update_data_of book_data) r else r)
           (books s))
      = map (\<lambda>r. (r C_id, r C_created_at)) (books s)"
    using keys by (simp add: set_columns_other)
  show ?thesis
    using keys same
    by (simp add: database_update_book_def sql_update_def Let_def)
qed

theorem database_update_book_keeps_keys_witness:
  "update_data_of [(C_id, VInt 9), (C_created_at, VStr ''x'')] = []
   \<and> database_update_book 1 [(C_id, VInt 9), (C_created_at, VStr ''x'')] db1
       = Inl OperationalError
   \<and> update_data_of [(C_id, VInt 9), (C_price, VInt 5)] \<noteq> []
   \<and> (\<exists>s' ok. database_update_book 1 [(C_id, VInt 9), (C_price, VInt 5)] db1 = Inr (s', ok)
         \<and> map (\<lambda>r. (r C_id, r C_created_at)) (books s')
             = map (\<lambda>r. (r C_id, r C_created_at)) (books db1))"
proof -
  have e: "update_data_of [(C_id, VInt 9), (C_created_at, VStr ''x'')] = []"
    by (simp add: update_data_of_def)
  have n: "update_data_of [(C_id, VInt 9), (C_price, VInt 5)] \<noteq> []"
    by (simp add: update_data_of_def)
  from database_update_book_keeps_keys [of "[(C_id, VInt 9), (C_created_at, VStr ''x'')]" 1 db1] e
  have a: "database_update_book 1 [(C_id, VInt 9), (C_created_at, VStr ''x'')] db1
       = Inl OperationalError" by blast
  from database_update_book_keeps_keys [of "[(C_id, VInt 9), (C_price, VInt 5)]" 1 db1] n
  have b: "\<exists>s' ok. database_update_book 1 [(C_id, VInt 9), (C_price, VInt 5)] db1 = Inr (s', ok)
         \<and> map (\<lambda>r. (r C_id, r C_created_at)) (books s')
             = map (\<lambda>r. (r C_id, r C_created_at)) (books db1)" by blast
  from e a n b show ?thesis by blast
qed

lemma null_field_kept:
  "(field_of body c = Null \<longrightarrow>
      (c, VNull) \<in> set (dict_exclude_unset body)
      \<and> (c, VNull) \<in> set (update_data_of (dict_exclude_unset body))
      \<and> (\<exists>s' ok. database_update_book book_id (dict_exclude_unset body) s = Inr (s', ok)
            \<and> (\<forall>r. get_book_by_id book_id s = Some r
                  \<longrightarrow> (\<exists>r'. get_book_by_id book_id s' = Some r' \<and> r' c = VNull)))
      \<and> c \<notin> fst ` set (filtered_data (dict_exclude_unset body)))
   \<and> VNull \<notin> snd ` set (filtered_data (dict_exclude_unset body))"
proof (intro conjI impI)
  show "VNull \<notin> snd ` set (filtered_data (dict_exclude_unset body))"
    by (auto simp: filtered_data_def)
next
  assume n: "field_of body c = Null"
  then have m: "map_of (dict_exclude_unset body) c = Some VNull"
    by (simp add: map_of_dict_exclude_unset)
  then show mem: "(c, VNull) \<in> set (dict_exclude_unset body)"
    by (rule map_of_SomeD)
  then show "(c, VNull) \<in> set (update_data_of (dict_exclude_unset body))"
    by (simp add: update_data_of_dict_exclude_unset)
  from mem have ne: "dict_exclude_unset body \<noteq> []" by auto
  let ?g = "\<lambda>r. if r C_id = VInt book_id then set_columns (dict_exclude_unset body) r else r"
  have keep: "\<And>x. ?g x C_id = x C_id" by (rule update_step_keeps_id)
  have get: "get_book_by_id book_id (s\<lparr>books := map ?g (books s)\<rparr>)
      = map_option ?g (get_book_by_id book_id s)"
    by (rule get_book_by_id_map [of ?g, OF keep])
  have upd: "database_update_book book_id (dict_exclude_unset body) s
      = Inr (s\<lparr>books := map ?g (books s)\<rparr>, length (sql_select_by_id book_id s) = 1)"
    by (rule database_update_book_body [OF ne])
  have after: "\<forall>r. get_book_by_id book_id s = Some r
      \<longrightarrow> (\<exists>r'. get_book_by_id book_id (s\<lparr>books := map ?g (books s)\<rparr>) = Some r'
             \<and> r' c = VNull)"
  proof (intro allI impI)
    fix r
    assume g: "get_book_by_id book_id s = Some r"
    then have rid: "r C_id = VInt book_id" by (rule get_book_by_id_has_id)
    have "get_book_by_id book_id (s\<lparr>books := map ?g (books s)\<rparr>)
        = Some (set_columns (dict_exclude_unset body) r)"
      using get g rid by simp
    moreover have "set_columns (dict_exclude_unset body) r c = VNull"
      using n by (simp add: set_columns_dict_exclude_unset)
    ultimately show "\<exists>r'. get_book_by_id book_id (s\<lparr>books := map ?g (books s)\<rparr>) = Some r'
             \<and> r' c = VNull"
      by blast
  qed
  from upd after
  show "\<exists>s' ok. database_update_book book_id (dict_exclude_unset body) s = Inr (s', ok)
            \<and> (\<forall>r. get_book_by_id book_id s = Some r
                  \<longrightarrow> (\<exists>r'. get_book_by_id book_id s' = Some r' \<and> r' c = VNull))"
    by blast
  show "c \<notin> fst ` set (filtered_data (dict_exclude_unset body))"
  proof
    assume "c \<in> fst ` set (filtered_data (dict_exclude_unset body))"
    then obtain v where v: "(c, v) \<in> set (dict_exclude_unset body)" "v \<noteq> VNull"
      by (auto simp: filtered_data_def)
    from v(1) have "map_of (dict_exclude_unset body) c = Some v"
      using distinct_dict_exclude_unset by (simp add: map_of_eq_Some_iff)
    with m v(2) show False by simp
  qed
qed

lemma database_create_book_filters:
  "database_create_book now book_data s = sql_insert now (filtered_data book_data) s
   \<and> VNull \<notin> snd ` set (filtered_data book_data)
   \<and> (filtered_data book_data = []
        \<longrightarrow> database_create_book now book_data s = Inl OperationalError)"
  by (auto simp: database_create_book_def filtered_data_def sql_insert_def)

lemma database_create_book_null_created_at:
  assumes "(C_created_at, VNull) \<in> set book_data" and "distinct (map fst book_data)"
    and "database_create_book now book_data s = Inr (s', i)"
  shows "\<exists>r'. books s' = books s @ [r'] \<and> r' C_created_at = VStr now"
proof -
  have "C_created_at \<notin> fst ` set (filtered_data book_data)"
  proof
    assume "C_created_at \<in> fst ` set (filtered_data book_data)"
    then obtain v where v: "(C_created_at, v) \<in> set book_data" "v \<noteq> VNull"
      by (auto simp: filtered_data_def)
    from assms(2) v(1) assms(1) have "v = VNull" by (rule eq_key_imp_eq_value)
    with v(2) show False by simp
  qed
  then have c: "set_columns (filtered_data book_data) (default_row now) C_created_at = VStr now"
    by (simp add: set_columns_other default_row_def)
  from assms(3) c show ?thesis
    by (auto simp: database_create_book_def sql_insert_def Let_def
        split: if_splits val.splits)
qed

text \<open>
  C10. A field that a body supplies as an explicit null is kept in the dictionary of
  supplied fields and in the \<open>SET\<close> list the store's update builds from it, and the update
  sets that column of the record under the id to \<open>NULL\<close>. The create of the store runs
  the \<open>INSERT\<close> on the dictionary without its null values: the statement names no column
  of a null field and holds no null value, a dictionary of nulls only leaves a statement
  without columns, which fails, and a column given as null takes the store's default as
  an absent one does, so \<open>created_at\<close> given as null is stored as the time of the insert.
\<close>

theorem null_kept_on_update_dropped_on_create:
  "(field_of body c = Null \<longrightarrow>
      (c, VNull) \<in> set (dict_exclude_unset body)
      \<and> (c, VNull) \<in> set (update_data_of (dict_exclude_unset body))
      \<and> (\<exists>s' ok. database_update_book book_id (dict_exclude_unset body) s = Inr (s', ok)
            \<and> (\<forall>r. get_book_by_id book_id s = Some r
                  \<longrightarrow> (\<exists>r'. get_book_by_id book_id s' = Some r' \<and> r' c = VNull)))
      \<and> c \<notin> fst ` set (filtered_data (dict_exclude_unset body)))
   \<and> VNull \<notin> snd ` set (filtered_data (dict_exclude_unset body))
   \<and> database_create_book now (dict_exclude_unset body) s
       = sql_insert now (filtered_data (dict_exclude_unset body)) s
   \<and> database_create_book now book_data s = sql_insert now (filtered_data book_data) s
   \<and> VNull \<notin> snd ` set (filtered_data book_data)
   \<and> (filtered_data book_data = []
        \<longrightarrow> database_create_book now book_data s = Inl OperationalError)
   \<and> ((C_created_at, VNull) \<in> set book_data \<and> distinct (map fst book_data)
        \<longrightarrow> (\<forall>s' i. database_create_book now book_data s = Inr (s', i)
              \<longrightarrow> (\<exists>r'. books s' = books s @ [r'] \<and> r' C_created_at = VStr now)))"
  using null_field_kept [of body c book_id s]
    database_create_book_filters [of now "dict_exclude_unset body" s]
    database_create_book_filters [of now book_data s]
    database_create_book_null_created_at [of book_data now s]
  by blast

text \<open>
  The body of the example with \<open>"publisher": null\<close>: the update of book 1 makes its
  publisher \<open>NULL\<close>, and the insert statement of a create names no publisher. The create of
  the store on a title and a null \<open>created_at\<close> stores the time of the insert; on a null
  publisher alone it fails.
\<close>

theorem null_kept_on_update_dropped_on_create_witness:
  "field_of (body1\<lparr>publisher := Null\<rparr>) C_publisher = Null
   \<and> get_book_by_id 1 db1 = Some book1
   \<and> (C_publisher, VNull) \<in> set (dict_exclude_unset (body1\<lparr>publisher := Null\<rparr>))
   \<and> (\<exists>s' ok r'. database_update_book 1 (dict_exclude_unset (body1\<lparr>publisher := Null\<rparr>)) db1
                   = Inr (s', ok)
         \<and> get_book_by_id 1 s' = Some r' \<and> r' C_publisher = VNull)
   \<and> C_publisher \<notin> fst ` set (filtered_data (dict_exclude_unset (body1\<lparr>publisher := Null\<rparr>)))
   \<and> (C_created_at, VNull) \<in> set [(C_title, VStr ''T''), (C_created_at, VNull)]
   \<and> distinct (map fst [(C_title, VStr ''T''), (C_created_at, VNull)])
   \<and> (\<exists>s' r'. database_create_book ''2025-01-03 00:00:00''
                 [(C_title, VStr ''T''), (C_created_at, VNull)] db1 = Inr (s', 2)
         \<and> books s' = [book1, r'] \<and> r' C_created_at = VStr ''2025-01-03 00:00:00'')
   \<and> filtered_data [(C_publisher, VNull)] = []
   \<and> database_create_book ''2025-01-03 00:00:00'' [(C_publisher, VNull)] db1
       = Inl OperationalError"
proof -
  let ?b = "body1\<lparr>publisher := Null\<rparr>"
  let ?d = "[(C_title, VStr ''T''), (C_created_at, VNull)]"
  let ?now = "''2025-01-03 00:00:00''"
  have h: "field_of ?b C_publisher = Null" by simp
  note t = null_kept_on_update_dropped_on_create [of ?b C_publisher 1 db1 ?now ?d]
  from t h have m: "(C_publisher, VNull) \<in> set (dict_exclude_unset ?b)" by blast
  from t h have f: "C_publisher \<notin> fst ` set (filtered_data (dict_exclude_unset ?b))" by blast
  from t h obtain s' ok where
    u: "database_update_book 1 (dict_exclude_unset ?b) db1 = Inr (s', ok)"
    and g: "\<forall>r. get_book_by_id 1 db1 = Some r
          \<longrightarrow> (\<exists>r'. get_book_by_id 1 s' = Some r' \<and> r' C_publisher = VNull)"
    by blast
  from g get1 obtain r' where "get_book_by_id 1 s' = Some r'" "r' C_publisher = VNull" by blast
  with u have upd: "\<exists>s' ok r'. database_update_book 1 (dict_exclude_unset ?b) db1 = Inr (s', ok)
         \<and> get_book_by_id 1 s' = Some r' \<and> r' C_publisher = VNull" by blast
  have k: "(C_created_at, VNull) \<in> set ?d" "distinct (map fst ?d)" by simp_all
  obtain s2 where ins: "database_create_book ?now ?d db1 = Inr (s2, 2)"
    by (simp add: database_create_book_def filtered_data_def sql_insert_def set_columns_def
        default_row_def db1_def book1_def rowid_def)
  with t k obtain r2 where "books s2 = books db1 @ [r2]" "r2 C_created_at = VStr ?now"
    by blast
  with ins have cre: "\<exists>s' r'. database_create_book ?now ?d db1 = Inr (s', 2)
         \<and> books s' = [book1, r'] \<and> r' C_created_at = VStr ?now"
    by (auto simp: db1_def)
  have e: "filtered_data [(C_publisher, VNull)] = []" by (simp add: filtered_data_def)
  from null_kept_on_update_dropped_on_create
    [of ?b C_publisher 1 db1 ?now "[(C_publisher, VNull)]"] e
  have fail: "database_create_book ?now [(C_publisher, VNull)] db1 = Inl OperationalError"
    by blast
  from h get1 m upd f k cre e fail show ?thesis by blast
qed

section \<open>Listing books\<close>

text \<open>
  The query of the store behind the listing: for an offset \<open>skip \<ge> 0\<close> and a limit
  \<open>limit \<ge> 0\<close> it selects the slice \<open>[skip, skip + limit)\<close> of the sequence of all rows in
  ascending order of id (a rearrangement of the stored rows); the slice is in ascending
  order of id, has at most \<open>limit\<close> rows, and is empty when \<open>skip\<close> is at least the number
  of rows.
\<close>

lemma get_all_books_page:
  assumes "0 \<le> skip" and "0 \<le> limit"
  shows "get_all_books skip limit s
           = take (nat limit) (drop (nat skip) (sort_key rowid (books s)))
         \<and> sorted (map rowid (sort_key rowid (books s)))
         \<and> mset (sort_key rowid (books s)) = mset (books s)
         \<and> sorted (map rowid (get_all_books skip limit s))
         \<and> length (get_all_books skip limit s) \<le> nat limit
         \<and> (int (length (books s)) \<le> skip \<longrightarrow> get_all_books skip limit s = [])"
proof -
  let ?full = "sort_key rowid (books s)"
  let ?page = "take (nat limit) (drop (nat skip) ?full)"
  have r: "get_all_books skip limit s = ?page"
    using assms by (simp add: get_all_books_def sql_select_page_def)
  have so: "sorted (map rowid ?full)" by simp
  have "sorted (take (nat limit) (drop (nat skip) (map rowid ?full)))"
    using so by (intro sorted_wrt_take sorted_wrt_drop)
  then have sp: "sorted (map rowid ?page)" by (simp add: take_map drop_map)
  have e: "int (length (books s)) \<le> skip \<longrightarrow> ?page = []" by simp
  show ?thesis unfolding r using so sp e by simp
qed

text \<open>
  The route on top of it: with \<open>skip \<ge> 0\<close> and \<open>limit\<close> in \<open>(0, 100]\<close> an empty slice is
  answered as the empty list, and a slice that holds a row is answered with status 500,
  because the rows returned do not validate against \<open>List[BookResponse]\<close>.
\<close>

lemma read_books_response:
  assumes "0 \<le> skip" and "0 < limit" and "limit \<le> 100"
  shows "read_books skip limit s =
     (if get_all_books skip limit s = [] then Inr [] else Inl ResponseValidationError)"
proof (cases "get_all_books skip limit s")
  case Nil
  with assms show ?thesis by (simp add: read_books_def response_model_list_def)
next
  case (Cons r rs)
  with assms show ?thesis
    by (simp add: read_books_def response_model_list_def BookResponse_valid_row)
qed

text \<open>
  C2. Listing with offset \<open>skip\<close> and limit \<open>limit\<close> is to return the slice
  \<open>[skip, skip + limit)\<close> of the records in ascending order of id. On the store of two
  books, which two creates leave, \<open>GET /books?skip=1&limit=1\<close> selects that slice, the second book, and the route
  answers with status 500 in place of it; \<open>GET /books?skip=0&limit=10\<close> selects both
  books in order and is answered the same way.
\<close>

theorem read_books_stored_books_fail:
  "run [PostBooks ''2025-01-01 00:00:00'' body1,
        PostBooks ''2025-01-02 00:00:00''
          (empty_body\<lparr>title := Given ''U'', author := Given ''B'', price := Given 200\<rparr>)]
     empty_db = db2
   \<and> get_all_books 1 1 db2 = [book2]
   \<and> read_books 1 1 db2 = Inl ResponseValidationError
   \<and> get_all_books 0 10 db2 = [book1, book2]
   \<and> read_books 0 10 db2 = Inl ResponseValidationError
   \<and> status_code ResponseValidationError = 500"
proof -
  have ids: "rowid book1 = 1" "rowid book2 = 2" by (simp_all add: rowid_def book1_def book2_def)
  have full: "sort_key rowid (books db2) = [book1, book2]"
    by (simp add: db2_def ids)
  have a: "get_all_books 1 1 db2 = [book2]"
    by (simp add: get_all_books_def sql_select_page_def full)
  have b: "get_all_books 0 10 db2 = [book1, book2]"
    by (simp add: get_all_books_def sql_select_page_def full)
  have "read_books 1 1 db2 = Inl ResponseValidationError"
    using read_books_response [of 1 1 db2] a by simp
  moreover have "read_books 0 10 db2 = Inl ResponseValidationError"
    using read_books_response [of 0 10 db2] b by simp
  ultimately show ?thesis using a b db2_reached by simp
qed

section \<open>Creating a book: fresh ids\<close>

lemma fold_max_ge_init: "(a::int) \<le> fold max xs a"
proof (induction xs arbitrary: a)
  case Nil
  show ?case by simp
next
  case (Cons x xs)
  have "a \<le> max x a" by simp
  also have "\<dots> \<le> fold max xs (max x a)" by (rule Cons.IH)
  finally show ?case by simp
qed

lemma fold_max_ge_elem: "x \<in> set xs \<Longrightarrow> (x::int) \<le> fold max xs a"
proof (induction xs arbitrary: a)
  case Nil
  then show ?case by simp
next
  case (Cons y ys)
  show ?case
  proof (cases "x = y")
    case True
    have "x \<le> max y a" using True by simp
    also have "\<dots> \<le> fold max ys (max y a)" by (rule fold_max_ge_init)
    finally show ?thesis by simp
  next
    case False
    with Cons.prems have "x \<in> set ys" by simp
    then show ?thesis using Cons.IH by simp
  qed
qed









lemma filtered_data_keys: "fst ` set (filtered_data d) \<subseteq> fst ` set d"
  by (auto simp: filtered_data_def)

lemma new_row_no_id:
  "set_columns (filtered_data (dict_exclude_unset body)) (default_row now) C_id = VNull
   \<and> set_columns (filtered_data (dict_exclude_unset body)) (default_row now) C_created_at
       = VStr now"
proof -
  have "C_id \<notin> fst ` set (filtered_data (dict_exclude_unset body))"
    "C_created_at \<notin> fst ` set (filtered_data (dict_exclude_unset body))"
    using filtered_data_keys [of "dict_exclude_unset body"] keys_dict_exclude_unset [of body]
    by auto
  then show ?thesis by (simp add: set_columns_other default_row_def)
qed






section \<open>The primary key in the stores that requests reach\<close>

text \<open>
  Every store that a history of requests leaves, starting from the empty one, holds an
  integer in the \<open>id\<close> column of each row and no id twice, so an id that selects a row
  selects exactly one: \<open>rowcount\<close> is 1 for the update and the delete of a stored record.
\<close>

lemma pk_ok_filter: "pk_ok rs \<Longrightarrow> pk_ok (filter P rs)"
  by (induction rs) (auto simp: pk_ok_def)

lemma pk_ok_map:
  assumes "\<And>r. g r C_id = r C_id" and "pk_ok rs"
  shows "pk_ok (map g rs)"
proof -
  have same: "\<And>r. rowid (g r) = rowid r" using assms(1) by (simp add: rowid_def)
  then have m: "map rowid (map g rs) = map rowid rs" by simp
  have "list_all (\<lambda>r. r C_id = VInt (rowid r)) (map g rs)"
    using assms same by (simp add: pk_ok_def list_all_iff)
  moreover have "distinct (map rowid (map g rs))"
    unfolding m using assms(2) by (simp add: pk_ok_def)
  ultimately show ?thesis unfolding pk_ok_def by blast
qed

lemma pk_ok_append:
  assumes "pk_ok rs" and "\<forall>x\<in>set rs. rowid x < i" and "r C_id = VInt i"
  shows "pk_ok (rs @ [r])"
proof -
  have "rowid r = i" using assms(3) by (simp add: rowid_def)
  moreover have "i \<notin> rowid ` set rs" using assms(2) by auto
  ultimately show ?thesis using assms(1,3) by (simp add: pk_ok_def)
qed

lemma create_book_state:
  "snd (create_book now body s) = s
   \<or> snd (create_book now body s) =
       s\<lparr>books := books s @
           [(set_columns (filtered_data (dict_exclude_unset body)) (default_row now))
              (C_id := VInt (fold max (map rowid (books s)) (autoinc s) + 1))],
         autoinc := fold max (map rowid (books s)) (autoinc s) + 1\<rparr>"
  using new_row_no_id [of body now]
  by (simp add: create_book_def database_create_book_def sql_insert_def Let_def
      split: option.splits)

lemma create_book_pk_ok:
  assumes "pk_ok (books s)"
  shows "pk_ok (books (snd (create_book now body s)))"
proof -
  let ?i = "fold max (map rowid (books s)) (autoinc s) + 1"
  let ?r = "(set_columns (filtered_data (dict_exclude_unset body)) (default_row now))
              (C_id := VInt ?i)"
  have "\<forall>x\<in>set (books s). rowid x < ?i"
  proof
    fix x assume "x \<in> set (books s)"
    then have "rowid x \<in> set (map rowid (books s))" by simp
    then have "rowid x \<le> fold max (map rowid (books s)) (autoinc s)"
      by (rule fold_max_ge_elem)
    then show "rowid x < ?i" by simp
  qed
  then have "pk_ok (books s @ [?r])" using assms by (intro pk_ok_append [of _ ?i]) simp_all
  with assms create_book_state [of now body s] show ?thesis by auto
qed

lemma update_book_pk_ok:
  assumes "pk_ok (books s)"
  shows "pk_ok (books (snd (update_book book_id body s)))"
proof (cases "get_book_by_id book_id s")
  case None
  with assms show ?thesis by (simp add: update_book_def)
next
  case (Some r)
  have "pk_ok (map (\<lambda>r. if r C_id = VInt book_id
                           then set_columns (dict_exclude_unset body) r else r) (books s))"
    using assms by (intro pk_ok_map update_step_keeps_id)
  then show ?thesis by (simp add: update_book_state [OF Some])
qed

lemma delete_book_pk_ok:
  "pk_ok (books s) \<Longrightarrow> pk_ok (books (snd (delete_book book_id s)))"
  by (simp add: delete_book_def database_delete_book_def sql_delete_def pk_ok_filter)

lemma serve_pk_ok: "pk_ok (books s) \<Longrightarrow> pk_ok (books (serve q s))"
  by (cases q)
     (simp_all add: post_books_snd put_books_snd create_book_pk_ok update_book_pk_ok
        delete_book_pk_ok)

lemma run_pk_ok: "pk_ok (books s) \<Longrightarrow> pk_ok (books (run qs s))"
  by (induction qs arbitrary: s) (simp_all add: serve_pk_ok)

lemma reachable_pk_ok: "pk_ok (books (run qs empty_db))"
  by (rule run_pk_ok) (simp add: empty_db_def pk_ok_def)

lemma pk_ok_select_one:
  assumes "pk_ok (books s)" and "get_book_by_id i s = Some r"
  shows "sql_select_by_id i s = [r]"
proof -
  have d: "distinct (map rowid (books s))" using assms(1) by (simp add: pk_ok_def)
  have "distinct (map rowid (filter (\<lambda>r. r C_id = VInt i) (books s)))"
    using d by (rule distinct_map_filter)
  moreover have "\<forall>x\<in>set (filter (\<lambda>r. r C_id = VInt i) (books s)). rowid x = i"
    by (simp add: rowid_def)
  ultimately have "length (filter (\<lambda>r. r C_id = VInt i) (books s)) \<le> 1"
  proof (cases "filter (\<lambda>r. r C_id = VInt i) (books s)")
    case Nil
    then show ?thesis by simp
  next
    case (Cons a as)
    assume dd: "distinct (map rowid (filter (\<lambda>r. r C_id = VInt i) (books s)))"
      and ee: "\<forall>x\<in>set (filter (\<lambda>r. r C_id = VInt i) (books s)). rowid x = i"
    have "as = []"
    proof (cases as)
      case Nil
      then show ?thesis .
    next
      case (Cons b bs)
      with \<open>filter (\<lambda>r. r C_id = VInt i) (books s) = a # as\<close> dd ee show ?thesis by auto
    qed
    with Cons show ?thesis by simp
  qed
  with assms(2) show ?thesis
    by (auto simp: get_book_by_id_def sql_select_by_id_def split: list.splits)
qed

lemma reachable_select_one:
  "get_book_by_id i (run qs empty_db) = Some r \<Longrightarrow> sql_select_by_id i (run qs empty_db) = [r]"
  by (rule pk_ok_select_one [OF reachable_pk_ok])

end
